theory Spec2Isabelle
  imports Main "HOL-Library.Sublist"
begin

section \<open>Strings of the script\<close>

text \<open>
  A JavaScript string is a sequence of UTF-16 code units; a code unit is modelled by its
  number.  The script uses three built-in string operations: \<^verbatim>\<open>toLowerCase\<close>,
  \<^verbatim>\<open>trim\<close> and \<^verbatim>\<open>indexOf\<close>.

  \<^verbatim>\<open>toLowerCase\<close> applies the case tables of the platform, which are no part of the
  script: it is a component of the host, below, and the results about the script are
  stated for whatever function the host puts there.  \<^verbatim>\<open>trim\<close> and \<^verbatim>\<open>indexOf\<close> are defined here.
\<close>

type_synonym jsstring = "nat list"

definition js :: "string \<Rightarrow> jsstring" where
  "js s = map of_char s"

text \<open>
  \<^verbatim>\<open>trim\<close> removes the ECMAScript white space and line terminator code units from
  both ends of the string.
\<close>

definition isWhiteSpace :: "nat \<Rightarrow> bool" where
  "isWhiteSpace c \<longleftrightarrow>
     c = 0x09 \<or> c = 0x0A \<or> c = 0x0B \<or> c = 0x0C \<or> c = 0x0D \<or> c = 0x20 \<or> c = 0xA0
     \<or> c = 0x1680 \<or> (0x2000 \<le> c \<and> c \<le> 0x200A) \<or> c = 0x2028 \<or> c = 0x2029
     \<or> c = 0x202F \<or> c = 0x205F \<or> c = 0x3000 \<or> c = 0xFEFF"

definition trim :: "jsstring \<Rightarrow> jsstring" where
  "trim s = rev (dropWhile isWhiteSpace (rev (dropWhile isWhiteSpace s)))"

text \<open>
  \<^verbatim>\<open>s.indexOf(p)\<close> is the least position at which \<open>p\<close> starts in \<open>s\<close>, and \<open>-1\<close>
  when there is none; the empty pattern is found at position 0.
\<close>

fun indexOfFrom :: "nat \<Rightarrow> jsstring \<Rightarrow> jsstring \<Rightarrow> int" where
  "indexOfFrom k [] p = (if p = [] then int k else - 1)"
| "indexOfFrom k (c # s) p =
     (if prefix p (c # s) then int k else indexOfFrom (Suc k) s p)"

definition indexOf :: "jsstring \<Rightarrow> jsstring \<Rightarrow> int" where
  "indexOf s p = indexOfFrom 0 s p"

section \<open>Constants of the script\<close>

text \<open>
  \<^verbatim>\<open>
  const DEFAULT_KEYWORDS = ["skip", "skip ad", "skip ads", <2 Cyrillic words>, "close"];
  const CHECK_INTERVAL_MS = 800;
  const TOAST_INTERVAL_MS = 5000;
  \<close>
  The two Cyrillic keywords are given by their code units.
\<close>

definition DEFAULT_KEYWORDS :: "jsstring list" where
  "DEFAULT_KEYWORDS =
     [js ''skip'',
      js ''skip ad'',
      js ''skip ads'',
      [0x43F, 0x440, 0x43E, 0x43F, 0x443, 0x441, 0x442, 0x438, 0x442, 0x44C],
      [0x437, 0x430, 0x43A, 0x440, 0x44B, 0x442, 0x44C],
      js ''close'']"

definition CHECK_INTERVAL_MS :: int where
  "CHECK_INTERVAL_MS = 800"

definition TOAST_INTERVAL_MS :: int where
  "TOAST_INTERVAL_MS = 5000"

section \<open>The host and the state of the script\<close>

text \<open>
  The platform is outside the script.  What it answers is an input of the model: a
  host call either returns a value or throws, and a thrown value is \<open>Inl\<close> of an
  \<open>error\<close>.  The calls that query or act on the accessibility tree may throw:
  \<^verbatim>\<open>find()\<close>, \<^verbatim>\<open>node.click()\<close>, \<^verbatim>\<open>node.bounds()\<close> and \<^verbatim>\<open>click(x, y)\<close>.  So may
  \<^verbatim>\<open>sleep\<close>, in which the host interrupts a script that is being stopped.  The calls
  \<^verbatim>\<open>auto.waitFor()\<close>, \<^verbatim>\<open>toast\<close>, \<^verbatim>\<open>log\<close> and the reading of the clock are taken to
  return, and so are the getters of a node and of a rectangle.

  A thrown value is known by what its conversion to a string does, which is all the
  script does with it (\<^verbatim>\<open>"Warning: " + e\<close>): \<open>Thrown s\<close> converts to the string \<open>s\<close>,
  and the conversion of \<open>Unprintable e\<close> throws \<open>e\<close> in its turn.
\<close>

datatype error = Thrown string | Unprintable error

fun string_of_error :: "error \<Rightarrow> error + string" where
  "string_of_error (Thrown s) = Inr s"
| "string_of_error (Unprintable e) = Inl e"

text \<open>
  A node of the accessibility tree carries what its methods answer: \<^verbatim>\<open>text()\<close>,
  \<^verbatim>\<open>desc()\<close> and \<^verbatim>\<open>id()\<close> give a string or \<^verbatim>\<open>null\<close>, \<^verbatim>\<open>click()\<close> gives a
  boolean or throws, \<^verbatim>\<open>bounds()\<close> gives a rectangle or \<^verbatim>\<open>null\<close> or throws.  Of a
  rectangle the script reads \<^verbatim>\<open>centerX()\<close> and \<^verbatim>\<open>centerY()\<close> only.
\<close>

record bounds =
  centerX :: int
  centerY :: int

record node =
  node_text :: "jsstring option"
  node_desc :: "jsstring option"
  node_id :: "jsstring option"
  node_click :: "error + bool"
  node_bounds :: "error + bounds option"

text \<open>
  The host answers the \<open>k\<close>-th call of \<^verbatim>\<open>new Date().getTime()\<close>, of
  \<^verbatim>\<open>classNameMatches(/.*/).clickable(true).find()\<close>, of the coordinate tap
  \<^verbatim>\<open>click(x, y)\<close> and of \<^verbatim>\<open>sleep\<close> (with the error it throws, if it throws), and it
  provides \<^verbatim>\<open>String.prototype.toLowerCase\<close>.
\<close>

record host =
  now_ms :: "nat \<Rightarrow> int"
  find_nodes :: "nat \<Rightarrow> error + node list"
  click_at :: "nat \<Rightarrow> int \<Rightarrow> int \<Rightarrow> error + bool"
  sleep_throws :: "nat \<Rightarrow> error option"
  toLowerCase :: "jsstring \<Rightarrow> jsstring"

text \<open>
  A message is the string concatenation the script builds, kept as its operands: a
  literal or the string a thrown value converted to, a number, a string or
  \<^verbatim>\<open>null\<close>, \<^verbatim>\<open>JSON.stringify\<close> of a keyword list.
\<close>

datatype piece =
    Lit string
  | Num nat
  | Str "jsstring option"
  | Json "jsstring list"

type_synonym message = "piece list"

text \<open>
  The effects on the host, in the order the script makes them: \<^verbatim>\<open>auto.waitFor()\<close>,
  \<^verbatim>\<open>toast\<close>, \<^verbatim>\<open>log\<close>, \<^verbatim>\<open>node.click()\<close>, \<^verbatim>\<open>node.bounds()\<close>,
  \<^verbatim>\<open>click(x, y)\<close> and \<^verbatim>\<open>sleep\<close>.
\<close>

datatype event =
    WaitFor
  | Toast message
  | Log message
  | NodeClick node
  | NodeBounds node
  | Click int int
  | Sleep int

text \<open>
  The state: the two globals \<^verbatim>\<open>lastToastAt\<close> and \<^verbatim>\<open>taps\<close> of the script, the
  number of calls made so far of each host query, and the effects so far.
\<close>

record world =
  lastToastAt :: int
  taps :: nat
  nows :: nat
  finds :: nat
  clicks :: nat
  sleeps :: nat
  events :: "event list"

definition init_world :: world where
  "init_world =
     \<lparr>lastToastAt = 0, taps = 0, nows = 0, finds = 0, clicks = 0, sleeps = 0, events = []\<rparr>"

definition emit :: "event \<Rightarrow> world \<Rightarrow> world" where
  "emit e w = w\<lparr>events := events w @ [e]\<rparr>"

definition toast :: "message \<Rightarrow> world \<Rightarrow> world" where
  "toast message w = emit (Toast message) w"

definition log :: "message \<Rightarrow> world \<Rightarrow> world" where
  "log message w = emit (Log message) w"

definition sleep :: "host \<Rightarrow> int \<Rightarrow> world \<Rightarrow> (error + unit) \<times> world" where
  "sleep h ms w =
     (case sleep_throws h (sleeps w) of None \<Rightarrow> Inr () | Some e \<Rightarrow> Inl e,
      (emit (Sleep ms) w)\<lparr>sleeps := Suc (sleeps w)\<rparr>)"

text \<open>
  \<^verbatim>\<open>
  function now() { return new Date().getTime(); }
  \<close>
\<close>

definition now :: "host \<Rightarrow> world \<Rightarrow> int \<times> world" where
  "now h w = (now_ms h (nows w), w\<lparr>nows := Suc (nows w)\<rparr>)"

section \<open>The functions of the script\<close>

text \<open>
  \<^verbatim>\<open>
  function notifyThrottled(message) {
    const t = now();
    if (t - lastToastAt >= TOAST_INTERVAL_MS) {
      toast(message);
      lastToastAt = t;
    }
  }
  \<close>
\<close>

definition notifyThrottled :: "host \<Rightarrow> message \<Rightarrow> world \<Rightarrow> world" where
  "notifyThrottled h message w =
     (case now h w of
        (t, w1) \<Rightarrow>
          if t - lastToastAt w1 \<ge> TOAST_INTERVAL_MS
          then (toast message w1)\<lparr>lastToastAt := t\<rparr>
          else w1)"

text \<open>
  \<^verbatim>\<open>
  function hasKeyword(text, keywords) {
    if (!text) return false;
    const low = String(text).toLowerCase();
    for (let i = 0; i < keywords.length; i += 1) {
      if (low.indexOf(keywords[i]) !== -1) return true;
    }
    return false;
  }
  \<close>
  The text is a string or \<^verbatim>\<open>null\<close> (\<open>None\<close>); \<^verbatim>\<open>!text\<close> holds for \<^verbatim>\<open>null\<close> and for the
  empty string.  \<open>hasKeyword_loop\<close> is the \<^verbatim>\<open>for\<close> loop.
\<close>

fun hasKeyword_loop :: "jsstring \<Rightarrow> jsstring list \<Rightarrow> bool" where
  "hasKeyword_loop low [] = False"
| "hasKeyword_loop low (k # ks) =
     (if indexOf low k \<noteq> - 1 then True else hasKeyword_loop low ks)"

definition hasKeyword :: "host \<Rightarrow> jsstring option \<Rightarrow> jsstring list \<Rightarrow> bool" where
  "hasKeyword h text keywords =
     (case text of
        None \<Rightarrow> False
      | Some s \<Rightarrow>
          if s = [] then False
          else hasKeyword_loop (toLowerCase h s) keywords)"

text \<open>
  \<^verbatim>\<open>
  function clickNode(node) {
    if (!node) return false;
    if (node.click()) return true;

    const b = node.bounds();
    if (!b) return false;
    return click(b.centerX(), b.centerY());
  }
  \<close>
\<close>

definition clickNode :: "host \<Rightarrow> node option \<Rightarrow> world \<Rightarrow> (error + bool) \<times> world" where
  "clickNode h node w =
     (case node of
        None \<Rightarrow> (Inr False, w)
      | Some n \<Rightarrow>
          (let w1 = emit (NodeClick n) w in
           case node_click n of
             Inl e \<Rightarrow> (Inl e, w1)
           | Inr True \<Rightarrow> (Inr True, w1)
           | Inr False \<Rightarrow>
               (let w2 = emit (NodeBounds n) w1 in
                case node_bounds n of
                  Inl e \<Rightarrow> (Inl e, w2)
                | Inr None \<Rightarrow> (Inr False, w2)
                | Inr (Some b) \<Rightarrow>
                    (click_at h (clicks w2) (centerX b) (centerY b),
                     (emit (Click (centerX b) (centerY b)) w2)\<lparr>clicks := Suc (clicks w2)\<rparr>))))"

text \<open>
  \<^verbatim>\<open>
  function findAndTap(keywords) {
    const clickable = classNameMatches(/.*/).clickable(true).find();
    for (let i = 0; i < clickable.size(); i += 1) {
      const node = clickable.get(i);
      const txt = node.text();
      const desc = node.desc();
      const id = node.id();

      const matched =
        hasKeyword(txt, keywords) ||
        hasKeyword(desc, keywords) ||
        hasKeyword(id, keywords);

      if (!matched) continue;

      const tapped = clickNode(node);
      if (tapped) {
        taps += 1;
        log("Tapped candidate #" + taps + ": text=" + txt + ", desc=" + desc + ", id=" + id);
        return true;
      }
    }
    return false;
  }
  \<close>
  \<open>matched\<close> is the condition of the same name; \<open>findAndTap_loop\<close> is the \<^verbatim>\<open>for\<close>
  loop over the collection that \<^verbatim>\<open>find()\<close> returned.
\<close>

definition matched :: "host \<Rightarrow> jsstring list \<Rightarrow> node \<Rightarrow> bool" where
  "matched h keywords n \<longleftrightarrow>
     hasKeyword h (node_text n) keywords
     \<or> hasKeyword h (node_desc n) keywords
     \<or> hasKeyword h (node_id n) keywords"

fun findAndTap_loop :: "host \<Rightarrow> jsstring list \<Rightarrow> node list \<Rightarrow> world \<Rightarrow> (error + bool) \<times> world" where
  "findAndTap_loop h keywords [] w = (Inr False, w)"
| "findAndTap_loop h keywords (n # ns) w =
     (if \<not> matched h keywords n then findAndTap_loop h keywords ns w
      else
        case clickNode h (Some n) w of
          (Inl e, w1) \<Rightarrow> (Inl e, w1)
        | (Inr tapped, w1) \<Rightarrow>
            if tapped then
              (let w2 = w1\<lparr>taps := taps w1 + 1\<rparr> in
               (Inr True,
                log [Lit ''Tapped candidate #'', Num (taps w2),
                     Lit '': text='', Str (node_text n),
                     Lit '', desc='', Str (node_desc n),
                     Lit '', id='', Str (node_id n)] w2))
            else findAndTap_loop h keywords ns w1)"

definition findAndTap :: "host \<Rightarrow> jsstring list \<Rightarrow> world \<Rightarrow> (error + bool) \<times> world" where
  "findAndTap h keywords w =
     (let w1 = w\<lparr>finds := Suc (finds w)\<rparr> in
      case find_nodes h (finds w) of
        Inl e \<Rightarrow> (Inl e, w1)
      | Inr clickable \<Rightarrow> findAndTap_loop h keywords clickable w1)"

text \<open>
  \<^verbatim>\<open>
  function normalizeKeywords(list) {
    return list.map((x) => String(x).toLowerCase().trim()).filter((x) => x.length > 0);
  }
  \<close>
\<close>

definition normalizeKeywords :: "host \<Rightarrow> jsstring list \<Rightarrow> jsstring list" where
  "normalizeKeywords h list =
     filter (\<lambda>x. length x > 0) (map (\<lambda>x. trim (toLowerCase h x)) list)"

text \<open>
  \<^verbatim>\<open>
  function main() {
    auto.waitFor();

    const keywords = normalizeKeywords(DEFAULT_KEYWORDS);
    toast("Skip helper started");
    log("Keywords: " + JSON.stringify(keywords));
    log("Press volume up in Auto.js to stop script");

    while (true) {
      try {
        const pressed = findAndTap(keywords);
        if (!pressed) {
          notifyThrottled("Skip helper: no matching button");
        }
      } catch (e) {
        log("Warning: " + e);
        notifyThrottled("Skip helper warning: " + e);
      }
      sleep(CHECK_INTERVAL_MS);
    }
  }
  \<close>
  \<open>try_block\<close> and \<open>catch_block\<close> are the two blocks of the \<^verbatim>\<open>try\<close> statement and
  \<open>cycle\<close> is one turn of the \<^verbatim>\<open>while\<close> loop.  An error of the \<^verbatim>\<open>try\<close> block goes to
  the \<^verbatim>\<open>catch\<close> block.  Nothing catches an error of the \<^verbatim>\<open>catch\<close> block, which
  converts the caught value to a string before it logs it, or of \<^verbatim>\<open>sleep\<close>: such an error
  ends the turn, the loop and \<^verbatim>\<open>main\<close>.

  The loop has no exit of its own.  \<open>main_loop n\<close> runs at most \<open>n\<close> turns: its result is
  \<open>Inl e\<close> with the state in which the error \<open>e\<close> ended the loop, or \<open>Inr ()\<close> with the
  state after \<open>n\<close> turns, from which the loop goes on.  \<open>main n\<close> is the script up to there.
\<close>

definition try_block :: "host \<Rightarrow> jsstring list \<Rightarrow> world \<Rightarrow> (error + unit) \<times> world" where
  "try_block h keywords w =
     (case findAndTap h keywords w of
        (Inl e, w1) \<Rightarrow> (Inl e, w1)
      | (Inr pressed, w1) \<Rightarrow>
          if \<not> pressed
          then (Inr (), notifyThrottled h [Lit ''Skip helper: no matching button''] w1)
          else (Inr (), w1))"

definition catch_block :: "host \<Rightarrow> error \<Rightarrow> world \<Rightarrow> (error + unit) \<times> world" where
  "catch_block h e w =
     (case string_of_error e of
        Inl e' \<Rightarrow> (Inl e', w)
      | Inr s \<Rightarrow>
          (Inr (),
           notifyThrottled h [Lit ''Skip helper warning: '', Lit s]
             (log [Lit ''Warning: '', Lit s] w)))"

definition cycle :: "host \<Rightarrow> jsstring list \<Rightarrow> world \<Rightarrow> (error + unit) \<times> world" where
  "cycle h keywords w =
     (case try_block h keywords w of
        (Inr u, w1) \<Rightarrow> sleep h CHECK_INTERVAL_MS w1
      | (Inl e, w1) \<Rightarrow>
          (case catch_block h e w1 of
             (Inl e', w2) \<Rightarrow> (Inl e', w2)
           | (Inr u, w2) \<Rightarrow> sleep h CHECK_INTERVAL_MS w2))"

fun main_loop :: "nat \<Rightarrow> host \<Rightarrow> jsstring list \<Rightarrow> world \<Rightarrow> (error + unit) \<times> world" where
  "main_loop 0 h keywords w = (Inr (), w)"
| "main_loop (Suc n) h keywords w =
     (case cycle h keywords w of
        (Inl e, w1) \<Rightarrow> (Inl e, w1)
      | (Inr u, w1) \<Rightarrow> main_loop n h keywords w1)"

definition startup :: "jsstring list \<Rightarrow> world \<Rightarrow> world" where
  "startup keywords w =
     log [Lit ''Press volume up in Auto.js to stop script'']
       (log [Lit ''Keywords: '', Json keywords]
          (toast [Lit ''Skip helper started'']
             (emit WaitFor w)))"

definition main :: "nat \<Rightarrow> host \<Rightarrow> (error + unit) \<times> world" where
  "main n h =
     (let keywords = normalizeKeywords h DEFAULT_KEYWORDS
      in main_loop n h keywords (startup keywords init_world))"

section \<open>Reading the effects, and example inputs\<close>

text \<open>The nodes on which \<^verbatim>\<open>node.click()\<close> was called, in the order of the calls.\<close>

fun clicked :: "event list \<Rightarrow> node list" where
  "clicked [] = []"
| "clicked (NodeClick n # es) = n # clicked es"
| "clicked (e # es) = clicked es"


text \<open>
  Two lower-casing functions for the example hosts.  The first works code unit by code
  unit on the capitals of Basic Latin, of the Latin-1 Supplement and of Cyrillic, and
  leaves every other code unit as it is.  The second adds what ECMAScript does with
  the Greek capitals, with the capital sigma (a final sigma when a cased letter comes
  before it and none after it) and with the dotted capital I (U+0130, which becomes the
  two code units U+0069 U+0307).
\<close>

definition example_lowerUnit :: "nat \<Rightarrow> nat" where
  "example_lowerUnit c =
     (if 0x41 \<le> c \<and> c \<le> 0x5A then c + 0x20
      else if 0xC0 \<le> c \<and> c \<le> 0xDE \<and> c \<noteq> 0xD7 then c + 0x20
      else if 0x400 \<le> c \<and> c \<le> 0x40F then c + 0x50
      else if 0x410 \<le> c \<and> c \<le> 0x42F then c + 0x20
      else c)"

definition example_toLowerCase :: "jsstring \<Rightarrow> jsstring" where
  "example_toLowerCase s = map example_lowerUnit s"

definition example_cased :: "nat \<Rightarrow> bool" where
  "example_cased c \<longleftrightarrow>
     (0x41 \<le> c \<and> c \<le> 0x5A) \<or> (0x61 \<le> c \<and> c \<le> 0x7A)
     \<or> (0x391 \<le> c \<and> c \<le> 0x3A9 \<and> c \<noteq> 0x3A2) \<or> (0x3B1 \<le> c \<and> c \<le> 0x3C9)
     \<or> (0x400 \<le> c \<and> c \<le> 0x45F)"

definition example_greek_lowerUnit :: "nat \<Rightarrow> nat" where
  "example_greek_lowerUnit c =
     (if 0x391 \<le> c \<and> c \<le> 0x3A9 \<and> c \<noteq> 0x3A2 then c + 0x20 else example_lowerUnit c)"

fun example_unicode_lower :: "bool \<Rightarrow> jsstring \<Rightarrow> jsstring" where
  "example_unicode_lower p [] = []"
| "example_unicode_lower p (c # s) =
     (if c = 0x3A3 then
        (if p \<and> \<not> (case s of [] \<Rightarrow> False | d # r \<Rightarrow> example_cased d) then 0x3C2 else 0x3C3)
          # example_unicode_lower True s
      else if c = 0x130 then 0x69 # 0x307 # example_unicode_lower True s
      else example_greek_lowerUnit c # example_unicode_lower (example_cased c) s)"

definition example_unicode_toLowerCase :: "jsstring \<Rightarrow> jsstring" where
  "example_unicode_toLowerCase s = example_unicode_lower False s"

text \<open>
  Five nodes.  The text of the first is \<^verbatim>\<open>"Skip Ad"\<close>, its own click fails and its
  bounds are centred at (100, 50).  The text of the second is \<^verbatim>\<open>"Skip"\<close>, its own click
  fails and it has no bounds.  The description of the third is \<^verbatim>\<open>"Close"\<close> and its own
  click succeeds.  The text of the last two is \<^verbatim>\<open>"Skip"\<close>; the click of the fourth
  throws, and the click of the fifth fails and the reading of its bounds throws.
\<close>

definition example_skip_node :: node where
  "example_skip_node =
     \<lparr>node_text = Some (js ''Skip Ad''), node_desc = None, node_id = None,
      node_click = Inr False, node_bounds = Inr (Some \<lparr>centerX = 100, centerY = 50\<rparr>)\<rparr>"

definition example_dead_node :: node where
  "example_dead_node =
     \<lparr>node_text = Some (js ''Skip''), node_desc = None, node_id = None,
      node_click = Inr False, node_bounds = Inr None\<rparr>"

definition example_close_node :: node where
  "example_close_node =
     \<lparr>node_text = None, node_desc = Some (js ''Close''), node_id = None,
      node_click = Inr True, node_bounds = Inr None\<rparr>"

definition example_stale_node :: node where
  "example_stale_node =
     \<lparr>node_text = Some (js ''Skip''), node_desc = None, node_id = None,
      node_click = Inl (Thrown ''stale node''), node_bounds = Inr None\<rparr>"

definition example_unbounded_node :: node where
  "example_unbounded_node =
     \<lparr>node_text = Some (js ''Skip''), node_desc = None, node_id = None,
      node_click = Inr False, node_bounds = Inl (Thrown ''no window'')\<rparr>"

text \<open>
  The example hosts.  On the first the clock advances by 800 ms from one reading to the
  next, every scan shows the second and the third node, every coordinate tap succeeds,
  no sleep is interrupted, and lower-casing is the first of the two functions.  The
  others differ from it in what is said: no node at all; a clock that advances by
  6000 ms; the second lower-casing function; a scan that throws a value with a string
  form, or one without; a scan that shows the fourth node only, or the fifth only; a
  coordinate tap that throws; and a host whose scan throws and that interrupts the
  first sleep.
\<close>

definition example_host :: host where
  "example_host =
     \<lparr>now_ms = (\<lambda>k. 1700000000000 + 800 * int k),
      find_nodes = (\<lambda>k. Inr [example_dead_node, example_close_node]),
      click_at = (\<lambda>k x y. Inr True),
      sleep_throws = (\<lambda>k. None),
      toLowerCase = example_toLowerCase\<rparr>"

definition example_idle_host :: host where
  "example_idle_host = example_host\<lparr>find_nodes := (\<lambda>k. Inr [])\<rparr>"

definition example_slow_host :: host where
  "example_slow_host = example_idle_host\<lparr>now_ms := (\<lambda>k. 1700000000000 + 6000 * int k)\<rparr>"

definition example_greek_host :: host where
  "example_greek_host = example_idle_host\<lparr>toLowerCase := example_unicode_toLowerCase\<rparr>"

definition example_failing_host :: host where
  "example_failing_host =
     example_host\<lparr>find_nodes := (\<lambda>k. Inl (Thrown ''accessibility service is not running''))\<rparr>"

definition example_unprintable_host :: host where
  "example_unprintable_host =
     example_host\<lparr>find_nodes :=
       (\<lambda>k. Inl (Unprintable (Thrown ''TypeError: Cannot convert object to primitive value'')))\<rparr>"

definition example_stale_host :: host where
  "example_stale_host = example_host\<lparr>find_nodes := (\<lambda>k. Inr [example_stale_node])\<rparr>"

definition example_unbounded_host :: host where
  "example_unbounded_host = example_host\<lparr>find_nodes := (\<lambda>k. Inr [example_unbounded_node])\<rparr>"

definition example_rejecting_host :: host where
  "example_rejecting_host =
     example_host\<lparr>click_at := (\<lambda>k x y. Inl (Thrown ''gesture rejected''))\<rparr>"

definition example_stopped_host :: host where
  "example_stopped_host =
     example_failing_host\<lparr>sleep_throws :=
       (\<lambda>k. if k = 0 then Some (Thrown ''ScriptInterruptedException'') else None)\<rparr>"


section \<open>The string operations\<close>



text \<open>\<^verbatim>\<open>indexOf\<close> finds the pattern exactly when it is a contiguous part of the string.\<close>

lemma indexOfFrom_found: "indexOfFrom k s p \<noteq> - 1 \<longleftrightarrow> sublist p s"
  by (induction s arbitrary: k) (auto simp: sublist_Cons_right)

lemma indexOf_found: "indexOf s p \<noteq> - 1 \<longleftrightarrow> sublist p s"
  by (simp add: indexOf_def indexOfFrom_found)

lemma hasKeyword_loop_iff: "hasKeyword_loop low ks \<longleftrightarrow> (\<exists>k\<in>set ks. sublist k low)"
  by (induction ks) (auto simp: indexOf_found)







lemma example_hosts_toLowerCase:
  "toLowerCase example_host = example_toLowerCase"
  "toLowerCase example_idle_host = example_toLowerCase"
  "toLowerCase example_slow_host = example_toLowerCase"
  "toLowerCase example_failing_host = example_toLowerCase"
  "toLowerCase example_unprintable_host = example_toLowerCase"
  "toLowerCase example_stale_host = example_toLowerCase"
  "toLowerCase example_unbounded_host = example_toLowerCase"
  "toLowerCase example_rejecting_host = example_toLowerCase"
  "toLowerCase example_stopped_host = example_toLowerCase"
  by (simp_all add: example_host_def example_idle_host_def example_slow_host_def
      example_failing_host_def example_unprintable_host_def example_stale_host_def
      example_unbounded_host_def example_rejecting_host_def example_stopped_host_def)



section \<open>Keyword matching\<close>

text \<open>
  C3, as the claim states it, fails where lower-casing looks at the letters around a
  letter or changes the length of the text.  On the Greek example host the capital
  sigma of the text \<open>[0x391, 0x3A3]\<close> (capital alpha, capital sigma) is the keyword
  \<open>[0x3C3]\<close> (small sigma) in the other case, and that keyword is normalised, yet
  \<open>hasKeyword\<close> is false: the lower-cased text ends in the final sigma \<open>0x3C2\<close>.  And
  \<open>hasKeyword\<close> is true for the text \<open>[0x130]\<close> (dotted capital I) and the keyword
  \<open>[0x69]\<close> (small i), although neither part of that text, the empty string or the text
  itself, is the keyword in any case.
\<close>

theorem hasKeyword_final_sigma_counterexample:
  "normalizeKeywords example_greek_host [[0x3C3]] = [[0x3C3]]
   \<and> [0x391, 0x3A3] = [0x391] @ [0x3A3] @ []
   \<and> toLowerCase example_greek_host [0x3A3] = toLowerCase example_greek_host [0x3C3]
   \<and> hasKeyword example_greek_host (Some [0x391, 0x3A3])
        (normalizeKeywords example_greek_host [[0x3C3]]) = False
   \<and> normalizeKeywords example_greek_host [[0x69]] = [[0x69]]
   \<and> hasKeyword example_greek_host (Some [0x130])
        (normalizeKeywords example_greek_host [[0x69]]) = True
   \<and> toLowerCase example_greek_host [] \<noteq> toLowerCase example_greek_host [0x69]
   \<and> toLowerCase example_greek_host [0x130] \<noteq> toLowerCase example_greek_host [0x69]"
proof -
  have l: "toLowerCase example_greek_host = example_unicode_toLowerCase"
    by (simp add: example_greek_host_def example_idle_host_def example_host_def)
  have n1: "normalizeKeywords example_greek_host [[0x3C3]] = [[0x3C3]]"
    by (simp add: normalizeKeywords_def l example_unicode_toLowerCase_def
        example_greek_lowerUnit_def example_lowerUnit_def example_cased_def trim_def
        isWhiteSpace_def)
  have n2: "normalizeKeywords example_greek_host [[0x69]] = [[0x69]]"
    by (simp add: normalizeKeywords_def l example_unicode_toLowerCase_def
        example_greek_lowerUnit_def example_lowerUnit_def example_cased_def trim_def
        isWhiteSpace_def)
  show ?thesis
    unfolding n1 n2
    by (simp add: hasKeyword_def l example_unicode_toLowerCase_def
        example_greek_lowerUnit_def example_lowerUnit_def example_cased_def indexOf_def)
qed

text \<open>
  C3, amended.  For every keyword list, normalised or not, and every lower-casing
  function of the host, \<open>hasKeyword\<close> is false when the text is absent and when it is
  empty.  For a text that is not empty it is true exactly when some keyword of the
  list is a contiguous part of the lower-cased text, that is of the result of
  \<^verbatim>\<open>toLowerCase\<close> on the whole text.
\<close>

theorem hasKeyword_lowered:
  "hasKeyword h None K = False
   \<and> hasKeyword h (Some []) K = False
   \<and> (s \<noteq> [] \<longrightarrow>
        hasKeyword h (Some s) K = (\<exists>k\<in>set K. \<exists>a c. toLowerCase h s = a @ k @ c))"
  by (simp add: hasKeyword_def hasKeyword_loop_iff sublist_def)

text \<open>
  The text \<^verbatim>\<open>"Skip Ad"\<close> against the list normalised from \<^verbatim>\<open>" SKIP "\<close>, \<^verbatim>\<open>"  "\<close> and a
  Cyrillic word in capitals.
\<close>

theorem hasKeyword_lowered_witness:
  "js ''Skip Ad'' \<noteq> []
   \<and> hasKeyword example_host None [js ''skip'', [0x437, 0x430, 0x43A, 0x440, 0x44B, 0x442, 0x44C]]
       = False
   \<and> hasKeyword example_host (Some [])
        [js ''skip'', [0x437, 0x430, 0x43A, 0x440, 0x44B, 0x442, 0x44C]] = False
   \<and> hasKeyword example_host (Some (js ''Skip Ad''))
        [js ''skip'', [0x437, 0x430, 0x43A, 0x440, 0x44B, 0x442, 0x44C]]
   \<and> (\<exists>k\<in>set [js ''skip'', [0x437, 0x430, 0x43A, 0x440, 0x44B, 0x442, 0x44C]].
         \<exists>a c. toLowerCase example_host (js ''Skip Ad'') = a @ k @ c)"
proof -
  let ?K = "[js ''skip'', [0x437, 0x430, 0x43A, 0x440, 0x44B, 0x442, 0x44C]]"
  have ne: "js ''Skip Ad'' \<noteq> []" by (simp add: js_def)
  have run: "hasKeyword example_host (Some (js ''Skip Ad'')) ?K"
    by (simp add: hasKeyword_def example_hosts_toLowerCase js_def example_toLowerCase_def
        example_lowerUnit_def indexOf_def)
  from hasKeyword_lowered [of example_host ?K "js ''Skip Ad''"] ne run
  show ?thesis by blast
qed



lemma hasKeyword_Nil: "hasKeyword h t [] = False"
  by (simp add: hasKeyword_def split: option.split)

lemma findAndTap_loop_no_keywords: "findAndTap_loop h [] ns w = (Inr False, w)"
  by (induction ns) (simp_all add: matched_def hasKeyword_Nil)

text \<open>
  C9.  With the empty keyword list \<open>hasKeyword\<close> is false for every text, absent, empty
  or not, and a scan makes the call of \<^verbatim>\<open>find()\<close> and nothing else: when that call
  returns, the scan returns false, no node is clicked, nothing is tapped and the tap
  counter keeps its value.
\<close>

theorem empty_keywords_no_tap:
  "hasKeyword h t [] = False
   \<and> findAndTap h [] w =
       (case find_nodes h (finds w) of Inl e \<Rightarrow> Inl e | Inr ns \<Rightarrow> Inr False,
        w\<lparr>finds := Suc (finds w)\<rparr>)"
  by (simp add: hasKeyword_Nil findAndTap_def findAndTap_loop_no_keywords split: sum.split)

theorem empty_keywords_no_tap_witness:
  "hasKeyword example_host (Some (js ''Skip'')) [] = False
   \<and> findAndTap example_host [] init_world = (Inr False, init_world\<lparr>finds := 1\<rparr>)"
  using empty_keywords_no_tap [of example_host "Some (js ''Skip'')" init_world]
  by (simp add: example_host_def init_world_def)

section \<open>The throttled notification\<close>

lemma notifyThrottled_shown:
  "TOAST_INTERVAL_MS \<le> now_ms h (nows w) - lastToastAt w \<Longrightarrow>
   notifyThrottled h m w =
     w\<lparr>lastToastAt := now_ms h (nows w), nows := Suc (nows w), events := events w @ [Toast m]\<rparr>"
  by (simp add: notifyThrottled_def now_def toast_def emit_def)

lemma notifyThrottled_silent:
  "now_ms h (nows w) - lastToastAt w < TOAST_INTERVAL_MS \<Longrightarrow>
   notifyThrottled h m w = w\<lparr>nows := Suc (nows w)\<rparr>"
  by (simp add: notifyThrottled_def now_def)

lemma notifyThrottled_frame:
  "finds (notifyThrottled h m w) = finds w \<and> nows (notifyThrottled h m w) = Suc (nows w)"
  by (simp add: notifyThrottled_def now_def toast_def emit_def)

text \<open>
  C4.  Two calls of \<open>notifyThrottled\<close>, the first of which shows its toast at the time
  \<open>now_ms h (nows w)\<close>; \<open>w2\<close> is the state at the second call, in which the time stamp
  is still the one the first call wrote, and \<open>now_ms h (nows w2)\<close> is the time of the
  second call.  When the second call comes less than \<open>TOAST_INTERVAL_MS\<close> after the
  first, it shows nothing and leaves the time stamp as it is: it only reads the clock.
  When it comes \<open>TOAST_INTERVAL_MS\<close> or more after the first, it shows its toast and
  sets the time stamp to its own time.
\<close>

theorem notifyThrottled_pair:
  assumes first: "TOAST_INTERVAL_MS \<le> now_ms h (nows w) - lastToastAt w"
    and w1: "w1 = notifyThrottled h m1 w"
    and between: "lastToastAt w2 = lastToastAt w1"
  shows "events w1 = events w @ [Toast m1]
    \<and> lastToastAt w1 = now_ms h (nows w)
    \<and> (now_ms h (nows w2) - now_ms h (nows w) < TOAST_INTERVAL_MS \<longrightarrow>
         notifyThrottled h m2 w2 = w2\<lparr>nows := Suc (nows w2)\<rparr>)
    \<and> (TOAST_INTERVAL_MS \<le> now_ms h (nows w2) - now_ms h (nows w) \<longrightarrow>
         notifyThrottled h m2 w2 =
           w2\<lparr>lastToastAt := now_ms h (nows w2), nows := Suc (nows w2),
               events := events w2 @ [Toast m2]\<rparr>)"
proof -
  have s1: "w1 = w\<lparr>lastToastAt := now_ms h (nows w), nows := Suc (nows w),
                   events := events w @ [Toast m1]\<rparr>"
    using first w1 by (simp add: notifyThrottled_shown)
  then have l2: "lastToastAt w2 = now_ms h (nows w)" using between by simp
  show ?thesis
    using s1 l2 by (simp add: notifyThrottled_shown notifyThrottled_silent)
qed

text \<open>
  Two calls in a row from the initial state: 800 ms apart on the first example host,
  where the second call is silent, and 6000 ms apart on the slow host, where both toasts
  show.
\<close>

theorem notifyThrottled_pair_witness:
  "TOAST_INTERVAL_MS \<le> now_ms example_host (nows init_world) - lastToastAt init_world
   \<and> TOAST_INTERVAL_MS \<le> now_ms example_slow_host (nows init_world) - lastToastAt init_world
   \<and> notifyThrottled example_host [Lit ''second'']
         (notifyThrottled example_host [Lit ''first''] init_world) =
       \<lparr>lastToastAt = 1700000000000, taps = 0, nows = 2, finds = 0, clicks = 0, sleeps = 0,
        events = [Toast [Lit ''first'']]\<rparr>
   \<and> notifyThrottled example_slow_host [Lit ''second'']
         (notifyThrottled example_slow_host [Lit ''first''] init_world) =
       \<lparr>lastToastAt = 1700000006000, taps = 0, nows = 2, finds = 0, clicks = 0, sleeps = 0,
        events = [Toast [Lit ''first''], Toast [Lit ''second'']]\<rparr>"
proof -
  have a: "TOAST_INTERVAL_MS \<le> now_ms example_host (nows init_world) - lastToastAt init_world"
    by (simp add: TOAST_INTERVAL_MS_def example_host_def init_world_def)
  have b: "TOAST_INTERVAL_MS
             \<le> now_ms example_slow_host (nows init_world) - lastToastAt init_world"
    by (simp add: TOAST_INTERVAL_MS_def example_slow_host_def example_idle_host_def example_host_def init_world_def)
  have fa: "notifyThrottled example_host [Lit ''first''] init_world =
      \<lparr>lastToastAt = 1700000000000, taps = 0, nows = 1, finds = 0, clicks = 0, sleeps = 0,
       events = [Toast [Lit ''first'']]\<rparr>"
    using a by (simp add: notifyThrottled_shown) (simp add: example_host_def init_world_def)
  have fb: "notifyThrottled example_slow_host [Lit ''first''] init_world =
      \<lparr>lastToastAt = 1700000000000, taps = 0, nows = 1, finds = 0, clicks = 0, sleeps = 0,
       events = [Toast [Lit ''first'']]\<rparr>"
    using b by (simp add: notifyThrottled_shown) (simp add: example_slow_host_def example_idle_host_def example_host_def init_world_def)
  from notifyThrottled_pair [OF a refl refl, of "[Lit ''first'']" "[Lit ''second'']"]
  have "notifyThrottled example_host [Lit ''second'']
         (notifyThrottled example_host [Lit ''first''] init_world) =
       \<lparr>lastToastAt = 1700000000000, taps = 0, nows = 2, finds = 0, clicks = 0, sleeps = 0,
        events = [Toast [Lit ''first'']]\<rparr>"
    unfolding fa by (simp add: TOAST_INTERVAL_MS_def example_host_def init_world_def)
  moreover
  from notifyThrottled_pair [OF b refl refl, of "[Lit ''first'']" "[Lit ''second'']"]
  have "notifyThrottled example_slow_host [Lit ''second'']
         (notifyThrottled example_slow_host [Lit ''first''] init_world) =
       \<lparr>lastToastAt = 1700000006000, taps = 0, nows = 2, finds = 0, clicks = 0, sleeps = 0,
        events = [Toast [Lit ''first''], Toast [Lit ''second'']]\<rparr>"
    unfolding fb by (simp add: TOAST_INTERVAL_MS_def example_slow_host_def example_idle_host_def example_host_def init_world_def)
  ultimately show ?thesis using a b by simp
qed

section \<open>The tap dispatcher\<close>

text \<open>
  C5.  When the node's own click returns false and its bounds are present, \<open>clickNode\<close>
  taps at the centre of the bounds and returns what that tap returns.  The effects are
  the node's click, the reading of its bounds and the tap, in this order.
\<close>

theorem clickNode_fallback:
  "node_click n = Inr False \<Longrightarrow> node_bounds n = Inr (Some b) \<Longrightarrow>
   clickNode h (Some n) w =
     (click_at h (clicks w) (centerX b) (centerY b),
      w\<lparr>clicks := Suc (clicks w),
        events := events w @ [NodeClick n, NodeBounds n, Click (centerX b) (centerY b)]\<rparr>)"
  by (simp add: clickNode_def emit_def)

theorem clickNode_fallback_witness:
  "node_click example_skip_node = Inr False
   \<and> node_bounds example_skip_node = Inr (Some \<lparr>centerX = 100, centerY = 50\<rparr>)
   \<and> clickNode example_host (Some example_skip_node) init_world =
       (Inr True,
        init_world\<lparr>clicks := 1,
          events := [NodeClick example_skip_node, NodeBounds example_skip_node,
                     Click 100 50]\<rparr>)"
proof -
  have a: "node_click example_skip_node = Inr False"
    by (simp add: example_skip_node_def)
  have b: "node_bounds example_skip_node = Inr (Some \<lparr>centerX = 100, centerY = 50\<rparr>)"
    by (simp add: example_skip_node_def)
  from clickNode_fallback [OF a b, of example_host init_world] a b
  show ?thesis by (simp add: example_host_def init_world_def)
qed

text \<open>
  C6.  When the node's own click returns true, \<open>clickNode\<close> returns true; the node's
  click is its only effect: the bounds are not read and nothing is tapped.
\<close>

theorem clickNode_native:
  "node_click n = Inr True \<Longrightarrow>
   clickNode h (Some n) w = (Inr True, w\<lparr>events := events w @ [NodeClick n]\<rparr>)"
  by (simp add: clickNode_def emit_def)

theorem clickNode_native_witness:
  "node_click example_close_node = Inr True
   \<and> clickNode example_host (Some example_close_node) init_world =
       (Inr True, init_world\<lparr>events := [NodeClick example_close_node]\<rparr>)"
proof -
  have a: "node_click example_close_node = Inr True"
    by (simp add: example_close_node_def)
  from clickNode_native [OF a, of example_host init_world] a
  show ?thesis by (simp add: init_world_def)
qed

text \<open>
  C7.  When the node's own click returns false and its bounds are absent, \<open>clickNode\<close>
  returns false; its effects are the node's click and the reading of the bounds, and
  nothing is tapped.
\<close>

theorem clickNode_no_bounds:
  "node_click n = Inr False \<Longrightarrow> node_bounds n = Inr None \<Longrightarrow>
   clickNode h (Some n) w =
     (Inr False, w\<lparr>events := events w @ [NodeClick n, NodeBounds n]\<rparr>)"
  by (simp add: clickNode_def emit_def)

theorem clickNode_no_bounds_witness:
  "node_click example_dead_node = Inr False
   \<and> node_bounds example_dead_node = Inr None
   \<and> clickNode example_host (Some example_dead_node) init_world =
       (Inr False,
        init_world\<lparr>events := [NodeClick example_dead_node, NodeBounds example_dead_node]\<rparr>)"
proof -
  have a: "node_click example_dead_node = Inr False"
    by (simp add: example_dead_node_def)
  have b: "node_bounds example_dead_node = Inr None"
    by (simp add: example_dead_node_def)
  from clickNode_no_bounds [OF a b, of example_host init_world] a b
  show ?thesis by (simp add: init_world_def)
qed

section \<open>The scan\<close>


text \<open>
  \<open>clickNode\<close> on a node calls the click of that node and of no other; it leaves the
  globals of the script and the counters of \<^verbatim>\<open>now()\<close>, \<^verbatim>\<open>find()\<close> and \<^verbatim>\<open>sleep\<close> alone.
\<close>

lemma clickNode_effect:
  assumes "clickNode h (Some n) w = (res, w1)"
  shows "(\<exists>new. events w1 = events w @ new \<and> clicked new = [n])
    \<and> lastToastAt w1 = lastToastAt w \<and> nows w1 = nows w
    \<and> taps w1 = taps w \<and> finds w1 = finds w \<and> sleeps w1 = sleeps w"
proof -
  have "\<exists>new. events w1 = events w @ new \<and> clicked new = [n]"
    using assms
    by (auto simp: clickNode_def emit_def Let_def split: sum.splits bool.splits option.splits)
  moreover have "lastToastAt w1 = lastToastAt w \<and> nows w1 = nows w
    \<and> taps w1 = taps w \<and> finds w1 = finds w \<and> sleeps w1 = sleeps w"
    using assms
    by (auto simp: clickNode_def emit_def Let_def split: sum.splits bool.splits option.splits)
  ultimately show ?thesis by blast
qed

lemma findAndTap_loop_frame:
  "findAndTap_loop h K ns w = (res, w') \<Longrightarrow>
   lastToastAt w' = lastToastAt w \<and> nows w' = nows w \<and> finds w' = finds w
   \<and> sleeps w' = sleeps w"
proof (induction ns arbitrary: w)
  case Nil
  then show ?case by simp
next
  case (Cons n ns)
  show ?case
  proof (cases "matched h K n")
    case False
    with Cons show ?thesis by simp
  next
    case True
    obtain r1 w1 where c: "clickNode h (Some n) w = (r1, w1)" by (cases "clickNode h (Some n) w")
    note fr = clickNode_effect [OF c]
    show ?thesis
    proof (cases r1)
      case (Inl e)
      with Cons.prems True c fr show ?thesis by auto
    next
      case (Inr tapped)
      show ?thesis
      proof (cases tapped)
        case True
        with Cons.prems \<open>matched h K n\<close> c Inr fr show ?thesis
          by (auto simp: log_def emit_def Let_def)
      next
        case False
        with Cons.prems \<open>matched h K n\<close> c Inr have "findAndTap_loop h K ns w1 = (res, w')"
          by simp
        from Cons.IH [OF this] fr show ?thesis by simp
      qed
    qed
  qed
qed

lemma findAndTap_frame:
  assumes "findAndTap h K w = (res, w')"
  shows "lastToastAt w' = lastToastAt w \<and> nows w' = nows w \<and> finds w' = Suc (finds w)
    \<and> sleeps w' = sleeps w"
proof (cases "find_nodes h (finds w)")
  case (Inl e)
  with assms show ?thesis by (auto simp: findAndTap_def Let_def)
next
  case (Inr ns)
  with assms have "findAndTap_loop h K ns (w\<lparr>finds := Suc (finds w)\<rparr>) = (res, w')"
    by (simp add: findAndTap_def Let_def)
  from findAndTap_loop_frame [OF this] show ?thesis by simp
qed






lemma main_0:
  "main 0 h =
     (Inr (),
      \<lparr>lastToastAt = 0, taps = 0, nows = 0, finds = 0, clicks = 0, sleeps = 0,
       events = [WaitFor, Toast [Lit ''Skip helper started''],
                 Log [Lit ''Keywords: '', Json (normalizeKeywords h DEFAULT_KEYWORDS)],
                 Log [Lit ''Press volume up in Auto.js to stop script'']]\<rparr>)"
  by (simp add: main_def startup_def init_world_def log_def toast_def emit_def Let_def)











section \<open>The loop\<close>




text \<open>
  As long as \<^verbatim>\<open>now()\<close> has not been called, which only \<open>notifyThrottled\<close> does, the
  time stamp is 0: a turn of the loop keeps this, and so does any number of turns.
\<close>

lemma cycle_nows_invariant:
  assumes "nows w = 0 \<longrightarrow> lastToastAt w = 0"
  shows "nows (snd (cycle h K w)) = 0 \<longrightarrow> lastToastAt (snd (cycle h K w)) = 0"
proof -
  obtain res w1 where f: "findAndTap h K w = (res, w1)" by (cases "findAndTap h K w")
  note fr = findAndTap_frame [OF f]
  show ?thesis
    using f fr assms
    by (auto simp: cycle_def try_block_def catch_block_def sleep_def log_def emit_def
        notifyThrottled_frame split: sum.splits)
qed

lemma main_loop_nows_invariant:
  "(nows w = 0 \<longrightarrow> lastToastAt w = 0) \<Longrightarrow>
   nows (snd (main_loop n h K w)) = 0 \<longrightarrow> lastToastAt (snd (main_loop n h K w)) = 0"
proof (induction n arbitrary: w)
  case 0
  then show ?case by simp
next
  case (Suc n)
  obtain res w1 where c: "cycle h K w = (res, w1)" by (cases "cycle h K w")
  from cycle_nows_invariant [OF Suc.prems, of h K] c
  have inv: "nows w1 = 0 \<longrightarrow> lastToastAt w1 = 0" by simp
  show ?case
  proof (cases res)
    case (Inl e)
    with c inv show ?thesis by simp
  next
    case (Inr u)
    with c Suc.IH [OF inv] show ?thesis by simp
  qed
qed

text \<open>
  C10.  The time stamp starts at 0, and the toast of the start is shown without
  changing it.  Let \<open>notifyThrottled\<close> not have been called in the first \<open>n\<close> turns of the
  loop; then the time stamp is still 0.  In the next turn the scan leaves the state
  \<open>w1\<close>, and \<open>notifyThrottled\<close> is called either in \<open>w1\<close> (no button was pressed) or in
  \<open>w1\<close> after the warning was logged (the scan threw).  In both states this first call
  shows its toast, provided the clock then reads at least \<open>TOAST_INTERVAL_MS\<close>.
\<close>

theorem first_notifyThrottled_shows:
  assumes clock: "TOAST_INTERVAL_MS \<le> now_ms h 0"
    and first: "nows (snd (main n h)) = 0"
    and scan: "findAndTap h (normalizeKeywords h DEFAULT_KEYWORDS) (snd (main n h)) = (r, w1)"
  shows "lastToastAt init_world = 0
    \<and> Toast [Lit ''Skip helper started''] \<in> set (events (snd (main 0 h)))
    \<and> lastToastAt (snd (main 0 h)) = 0
    \<and> lastToastAt (snd (main n h)) = 0
    \<and> notifyThrottled h m w1 =
        w1\<lparr>lastToastAt := now_ms h 0, nows := 1, events := events w1 @ [Toast m]\<rparr>
    \<and> notifyThrottled h m (log m' w1) =
        w1\<lparr>lastToastAt := now_ms h 0, nows := 1, events := events w1 @ [Log m', Toast m]\<rparr>"
proof -
  have inv: "lastToastAt (snd (main n h)) = 0"
  proof -
    have "nows (startup K init_world) = 0 \<longrightarrow> lastToastAt (startup K init_world) = 0" for K
      by (simp add: startup_def init_world_def log_def toast_def emit_def)
    from main_loop_nows_invariant [OF this] first show ?thesis
      by (simp add: main_def Let_def)
  qed
  from findAndTap_frame [OF scan] inv first
  have w1: "lastToastAt w1 = 0" "nows w1 = 0" by simp_all
  have a: "notifyThrottled h m w1 =
        w1\<lparr>lastToastAt := now_ms h 0, nows := 1, events := events w1 @ [Toast m]\<rparr>"
    using clock w1 by (simp add: notifyThrottled_shown)
  have b: "notifyThrottled h m (log m' w1) =
        w1\<lparr>lastToastAt := now_ms h 0, nows := 1, events := events w1 @ [Log m', Toast m]\<rparr>"
    using clock w1 by (simp add: notifyThrottled_shown log_def emit_def)
  show ?thesis
    using inv a b by (simp add: main_0 init_world_def)
qed

text \<open>
  On the idle host the first scan finds no node, and the call of \<open>notifyThrottled\<close> that
  follows it is the first of the run.
\<close>

theorem first_notifyThrottled_shows_witness:
  "TOAST_INTERVAL_MS \<le> now_ms example_idle_host 0
   \<and> nows (snd (main 0 example_idle_host)) = 0
   \<and> findAndTap example_idle_host (normalizeKeywords example_idle_host DEFAULT_KEYWORDS)
        (snd (main 0 example_idle_host))
       = (Inr False, (snd (main 0 example_idle_host))\<lparr>finds := 1\<rparr>)
   \<and> notifyThrottled example_idle_host [Lit ''Skip helper: no matching button'']
         ((snd (main 0 example_idle_host))\<lparr>finds := 1\<rparr>) =
       \<lparr>lastToastAt = 1700000000000, taps = 0, nows = 1, finds = 1, clicks = 0, sleeps = 0,
        events = [WaitFor, Toast [Lit ''Skip helper started''],
                  Log [Lit ''Keywords: '',
                       Json (normalizeKeywords example_idle_host DEFAULT_KEYWORDS)],
                  Log [Lit ''Press volume up in Auto.js to stop script''],
                  Toast [Lit ''Skip helper: no matching button'']]\<rparr>"
proof -
  have a: "TOAST_INTERVAL_MS \<le> now_ms example_idle_host 0"
    by (simp add: TOAST_INTERVAL_MS_def example_idle_host_def example_host_def)
  have b: "nows (snd (main 0 example_idle_host)) = 0"
    by (simp add: main_0)
  have c: "findAndTap example_idle_host (normalizeKeywords example_idle_host DEFAULT_KEYWORDS)
             (snd (main 0 example_idle_host))
           = (Inr False, (snd (main 0 example_idle_host))\<lparr>finds := 1\<rparr>)"
    by (simp add: findAndTap_def example_idle_host_def main_0 Let_def)
  from first_notifyThrottled_shows [OF a b c,
      of "[Lit ''Skip helper: no matching button'']"]
  have d: "notifyThrottled example_idle_host [Lit ''Skip helper: no matching button'']
         ((snd (main 0 example_idle_host))\<lparr>finds := 1\<rparr>) =
       \<lparr>lastToastAt = 1700000000000, taps = 0, nows = 1, finds = 1, clicks = 0, sleeps = 0,
        events = [WaitFor, Toast [Lit ''Skip helper started''],
                  Log [Lit ''Keywords: '',
                       Json (normalizeKeywords example_idle_host DEFAULT_KEYWORDS)],
                  Log [Lit ''Press volume up in Auto.js to stop script''],
                  Toast [Lit ''Skip helper: no matching button'']]\<rparr>"
    by (simp add: main_0 example_idle_host_def example_host_def)
  from a b c d show ?thesis by blast
qed

end
